theory Spec2Isabelle
  imports Complex_Main
begin

section \<open>ZenChain: blocks, proof of work, ledger and asset registry\<close>

text \<open>
  A shallow embedding of \<^verbatim>\<open>src/ZC.py\<close>: the classes \<^verbatim>\<open>Transaction\<close>,
  \<^verbatim>\<open>Block\<close> and \<^verbatim>\<open>ZenChain\<close>. Objects are records, mutation is explicit
  state passing, and every reading of the clock (\<^verbatim>\<open>time.time()\<close>) is an argument of
  the operation that reads it. Indices, nonces, the difficulty and the mining reward
  are Python integers (\<open>int\<close>). An amount is a Python number, an \<^verbatim>\<open>int\<close> or a
  \<^verbatim>\<open>float\<close>: the ledger itself creates the amounts \<open>100\<close> and \<open>0\<close>, and the command
  loop of \<^verbatim>\<open>main\<close> passes \<^verbatim>\<open>float(input("Amount: "))\<close>. Time stamps are only
  stored and serialised, never computed with, and are taken as real numbers. The
  values of the three classes are the records below; a \<^verbatim>\<open>Transaction\<close> or a
  \<^verbatim>\<open>Block\<close> that the program itself makes comes from \<open>Transaction_init\<close> or
  \<open>Block_init\<close>.
\<close>

subsection \<open>Python numbers\<close>

text \<open>
  A \<^verbatim>\<open>float\<close> is an IEEE 754 double: a finite value, given by the rational number
  it stands for (\<open>Finite 0\<close> is \<^verbatim>\<open>0.0\<close>; the rational numbers that are doubles are
  those of \<open>is_double\<close> below), the negative zero, an infinity, or a NaN. A number is
  an \<^verbatim>\<open>int\<close> of any size or a \<^verbatim>\<open>float\<close>; other types of amount are not modelled.
\<close>

datatype pyfloat = Finite rat | NegZero | PosInf | NegInf | NaN

datatype number = PyInt int | PyFloat pyfloat

datatype error = IndexError | OverflowError

text \<open>The number of binary digits of a positive integer (and \<open>0\<close> otherwise).\<close>

function bit_length :: "int \<Rightarrow> int" where
  "bit_length n = (if n \<le> 0 then 0 else 1 + bit_length (n div 2))"
  by pat_completeness auto
termination
  by (relation "measure nat") auto

declare bit_length.simps [simp del]

definition pow2 :: "int \<Rightarrow> rat" where
  "pow2 e = (if 0 \<le> e then 2 ^ nat e else 1 / 2 ^ nat (- e))"

text \<open>For \<open>x \<noteq> 0\<close>, the exponent \<open>e\<close> with \<open>2\<^sup>e \<le> \<bar>x\<bar> < 2\<^sup>e\<^sup>+\<^sup>1\<close>.\<close>

definition ilog2 :: "rat \<Rightarrow> int" where
  "ilog2 x =
     (if 1 \<le> \<bar>x\<bar> then bit_length \<lfloor>\<bar>x\<bar>\<rfloor> - 1
      else - bit_length (\<lceil>1 / \<bar>x\<bar>\<rceil> - 1))"

definition round_half_even :: "rat \<Rightarrow> int" where
  "round_half_even x =
     (let f = \<lfloor>x\<rfloor>; d = x - of_int f
      in if d < 1 / 2 then f else if 1 / 2 < d then f + 1 else if even f then f else f + 1)"

text \<open>
  Rounding a rational number to the nearest double, ties to the even significand: the
  significand has \<open>53\<close> binary digits, the last place of a value is never finer than
  \<open>2\<^sup>-\<^sup>1\<^sup>0\<^sup>7\<^sup>4\<close>, and a result of magnitude \<open>2\<^sup>1\<^sup>0\<^sup>2\<^sup>4\<close> or more is an infinity.
\<close>

definition round_double :: "rat \<Rightarrow> pyfloat" where
  "round_double x =
     (if x = 0 then Finite 0
      else
        (let e = max (ilog2 x - 52) (- 1074);
             y = of_int (round_half_even (x / pow2 e)) * pow2 e
         in if y = 0 then (if 0 < x then Finite 0 else NegZero)
            else if 1024 \<le> ilog2 y then (if 0 < x then PosInf else NegInf)
            else Finite y))"

text \<open>The rational numbers that are finite doubles.\<close>

definition is_double :: "rat \<Rightarrow> bool" where
  "is_double x \<longleftrightarrow>
     x = 0 \<or>
     (ilog2 x < 1024 \<and>
      (let t = x / pow2 (max (ilog2 x - 52) (- 1074)) in of_int \<lfloor>t\<rfloor> = t))"

fun float_neg :: "pyfloat \<Rightarrow> pyfloat" where
  "float_neg (Finite x) = (if x = 0 then NegZero else Finite (- x))"
| "float_neg NegZero = Finite 0"
| "float_neg PosInf = NegInf"
| "float_neg NegInf = PosInf"
| "float_neg NaN = NaN"

text \<open>IEEE addition, rounding to nearest; a sum that is exactly zero is \<^verbatim>\<open>0.0\<close>.\<close>

fun float_add :: "pyfloat \<Rightarrow> pyfloat \<Rightarrow> pyfloat" where
  "float_add NaN y = NaN"
| "float_add x NaN = NaN"
| "float_add PosInf NegInf = NaN"
| "float_add NegInf PosInf = NaN"
| "float_add PosInf y = PosInf"
| "float_add x PosInf = PosInf"
| "float_add NegInf y = NegInf"
| "float_add x NegInf = NegInf"
| "float_add NegZero y = y"
| "float_add x NegZero = x"
| "float_add (Finite x) (Finite y) = round_double (x + y)"

definition float_sub :: "pyfloat \<Rightarrow> pyfloat \<Rightarrow> pyfloat" where
  "float_sub x y = float_add x (float_neg y)"

text \<open>
  \<^verbatim>\<open>float(n)\<close> for an \<^verbatim>\<open>int\<close>, as Python converts the \<^verbatim>\<open>int\<close> operand of a mixed
  operation: correctly rounded, and an \<^verbatim>\<open>OverflowError\<close> when no finite double is
  near enough.
\<close>

definition float_of_int :: "int \<Rightarrow> error + pyfloat" where
  "float_of_int n =
     (case round_double (of_int n) of
        PosInf \<Rightarrow> Inl OverflowError
      | NegInf \<Rightarrow> Inl OverflowError
      | f \<Rightarrow> Inr f)"

text \<open>Python's \<^verbatim>\<open>+\<close> and \<^verbatim>\<open>-\<close> on two numbers.\<close>

fun py_add :: "number \<Rightarrow> number \<Rightarrow> error + number" where
  "py_add (PyInt a) (PyInt b) = Inr (PyInt (a + b))"
| "py_add (PyInt a) (PyFloat y) =
     (case float_of_int a of Inl e \<Rightarrow> Inl e | Inr x \<Rightarrow> Inr (PyFloat (float_add x y)))"
| "py_add (PyFloat x) (PyInt b) =
     (case float_of_int b of Inl e \<Rightarrow> Inl e | Inr y \<Rightarrow> Inr (PyFloat (float_add x y)))"
| "py_add (PyFloat x) (PyFloat y) = Inr (PyFloat (float_add x y))"

fun py_sub :: "number \<Rightarrow> number \<Rightarrow> error + number" where
  "py_sub (PyInt a) (PyInt b) = Inr (PyInt (a - b))"
| "py_sub (PyInt a) (PyFloat y) =
     (case float_of_int a of Inl e \<Rightarrow> Inl e | Inr x \<Rightarrow> Inr (PyFloat (float_sub x y)))"
| "py_sub (PyFloat x) (PyInt b) =
     (case float_of_int b of Inl e \<Rightarrow> Inl e | Inr y \<Rightarrow> Inr (PyFloat (float_sub x y)))"
| "py_sub (PyFloat x) (PyFloat y) = Inr (PyFloat (float_sub x y))"


subsection \<open>Serialisation and digest\<close>

text \<open>
  The values handed to \<^verbatim>\<open>json.dumps\<close>. A dictionary is the list of its items in
  the order the source writes them; \<open>JDouble\<close> holds a float amount and \<open>JFloat\<close> a
  time stamp.
\<close>

datatype json =
    JNull
  | JInt int
  | JDouble pyfloat
  | JFloat real
  | JStr string
  | JList "json list"
  | JDict "(string \<times> json) list"

text \<open>
  \<^verbatim>\<open>hashlib\<close> and \<^verbatim>\<open>json\<close> are libraries outside the repository. Both
  \<^verbatim>\<open>calculate_hash\<close> methods apply the same composition
  \<^verbatim>\<open>hashlib.sha256(json.dumps(v, sort_keys=True).encode()).hexdigest()\<close> to a
  dictionary \<open>v\<close>; that composition is a parameter \<open>dg\<close> of every definition that hashes.
\<close>

type_synonym digest = "json \<Rightarrow> string"

definition number_json :: "number \<Rightarrow> json" where
  "number_json x = (case x of PyInt n \<Rightarrow> JInt n | PyFloat f \<Rightarrow> JDouble f)"

subsection \<open>Transaction\<close>

record transaction =
  sender :: "string option"
  recipient :: string
  amount :: number
  nft_data :: "(string \<times> string) list option"
  tx_timestamp :: real
  tx_hash :: string

definition opt_str_json :: "string option \<Rightarrow> json" where
  "opt_str_json s = (case s of None \<Rightarrow> JNull | Some a \<Rightarrow> JStr a)"

definition nft_data_json :: "(string \<times> string) list option \<Rightarrow> json" where
  "nft_data_json d =
     (case d of None \<Rightarrow> JNull | Some kvs \<Rightarrow> JDict (map (\<lambda>(k, v). (k, JStr v)) kvs))"

definition tx_calculate_hash :: "digest \<Rightarrow> transaction \<Rightarrow> string" where
  "tx_calculate_hash dg tx =
     dg (JDict [(''sender'', opt_str_json (sender tx)),
                (''recipient'', JStr (recipient tx)),
                (''amount'', number_json (amount tx)),
                (''nft_data'', nft_data_json (nft_data tx)),
                (''timestamp'', JFloat (tx_timestamp tx))])"

text \<open>\<^verbatim>\<open>Transaction.__init__\<close>; \<open>now\<close> is the clock reading.\<close>

definition Transaction_init ::
  "digest \<Rightarrow> real \<Rightarrow> string option \<Rightarrow> string \<Rightarrow> number \<Rightarrow> (string \<times> string) list option
     \<Rightarrow> transaction" where
  "Transaction_init dg now sndr rcpt amt nft =
     (let tx = \<lparr>sender = sndr, recipient = rcpt, amount = amt, nft_data = nft,
                 tx_timestamp = now, tx_hash = []\<rparr>
      in tx\<lparr>tx_hash := tx_calculate_hash dg tx\<rparr>)"

definition to_dict :: "transaction \<Rightarrow> json" where
  "to_dict tx =
     JDict [(''sender'', opt_str_json (sender tx)),
            (''recipient'', JStr (recipient tx)),
            (''amount'', number_json (amount tx)),
            (''nft_data'', nft_data_json (nft_data tx)),
            (''timestamp'', JFloat (tx_timestamp tx)),
            (''hash'', JStr (tx_hash tx))]"

subsection \<open>Block and proof of work\<close>

record block =
  index :: int
  transactions :: "transaction list"
  timestamp :: real
  previous_hash :: string
  nonce :: int
  hash :: string

definition block_dict :: "block \<Rightarrow> json" where
  "block_dict b =
     JDict [(''index'', JInt (index b)),
            (''transactions'', JList (map to_dict (transactions b))),
            (''timestamp'', JFloat (timestamp b)),
            (''previous_hash'', JStr (previous_hash b)),
            (''nonce'', JInt (nonce b))]"

definition calculate_hash :: "digest \<Rightarrow> block \<Rightarrow> string" where
  "calculate_hash dg b = dg (block_dict b)"

text \<open>\<^verbatim>\<open>Block.__init__\<close>; the source's default for the nonce is \<open>0\<close>.\<close>

definition Block_init ::
  "digest \<Rightarrow> int \<Rightarrow> transaction list \<Rightarrow> real \<Rightarrow> string \<Rightarrow> int \<Rightarrow> block" where
  "Block_init dg idx txs ts prev n =
     (let b = \<lparr>index = idx, transactions = txs, timestamp = ts, previous_hash = prev,
                nonce = n, hash = []\<rparr>
      in b\<lparr>hash := calculate_hash dg b\<rparr>)"

text \<open>
  Python's \<^verbatim>\<open>s[:d]\<close> and \<^verbatim>\<open>c * d\<close> for any integer \<open>d\<close>: a negative \<open>d\<close> cuts
  \<open>-d\<close> characters off the end of \<open>s\<close>, and repeats \<open>c\<close> zero times.
\<close>

definition py_prefix :: "string \<Rightarrow> int \<Rightarrow> string" where
  "py_prefix s d = (if 0 \<le> d then take (nat d) s else take (length s - nat (- d)) s)"

definition py_repeat :: "char \<Rightarrow> int \<Rightarrow> string" where
  "py_repeat c d = replicate (nat d) c"

definition unsolved :: "int \<Rightarrow> block \<Rightarrow> bool" where
  "unsolved difficulty b \<longleftrightarrow> py_prefix (hash b) difficulty \<noteq> py_repeat CHR ''0'' difficulty"

text \<open>The body of the loop of \<^verbatim>\<open>mine_block\<close>.\<close>

definition mine_step :: "digest \<Rightarrow> block \<Rightarrow> block" where
  "mine_step dg b = (let b1 = b\<lparr>nonce := nonce b + 1\<rparr> in b1\<lparr>hash := calculate_hash dg b1\<rparr>)"

text \<open>
  \<^verbatim>\<open>Block.mine_block\<close>. The search has no bound, so the result is an option: \<open>None\<close>
  is a search that never ends.
\<close>

partial_function (option) mine_block :: "digest \<Rightarrow> int \<Rightarrow> block \<Rightarrow> block option" where
  "mine_block dg difficulty b =
     (if unsolved difficulty b then mine_block dg difficulty (mine_step dg b) else Some b)"

subsection \<open>The ledger\<close>

record nft =
  owner :: string
  name :: string
  description :: string
  created_at :: real

record zenchain =
  chain :: "block list"
  difficulty :: int
  pending_transactions :: "transaction list"
  mining_reward :: int
  nft_collections :: "string \<rightharpoonup> nft"

definition create_genesis_block :: "digest \<Rightarrow> real \<Rightarrow> block" where
  "create_genesis_block dg now = Block_init dg 0 [] now ''0'' 0"

definition ZenChain_init :: "digest \<Rightarrow> real \<Rightarrow> zenchain" where
  "ZenChain_init dg now =
     \<lparr>chain = [create_genesis_block dg now], difficulty = 2, pending_transactions = [],
      mining_reward = 100, nft_collections = Map.empty\<rparr>"

text \<open>\<^verbatim>\<open>self.chain[-1]\<close> raises on an empty list.\<close>

definition get_latest_block :: "zenchain \<Rightarrow> error + block" where
  "get_latest_block z = (if chain z = [] then Inl IndexError else Inr (last (chain z)))"

text \<open>
  \<^verbatim>\<open>mine_pending_transactions\<close>: \<open>t_block\<close> and \<open>t_reward\<close> are the two clock
  readings, for the block and for the reward transaction. \<open>None\<close>: the search never
  ends; \<open>Some (Inl e)\<close>: the exception \<open>e\<close>; \<open>Some (Inr z')\<close>: the ledger after the call.
\<close>

definition mine_pending_transactions ::
  "digest \<Rightarrow> real \<Rightarrow> real \<Rightarrow> string \<Rightarrow> zenchain \<Rightarrow> (error + zenchain) option" where
  "mine_pending_transactions dg t_block t_reward mining_reward_address z =
     (case get_latest_block z of
        Inl e \<Rightarrow> Some (Inl e)
      | Inr latest \<Rightarrow>
          (case mine_block dg (difficulty z)
                  (Block_init dg (int (length (chain z))) (pending_transactions z) t_block
                     (hash latest) 0) of
             None \<Rightarrow> None
           | Some b \<Rightarrow>
               Some (Inr (z\<lparr>chain := chain z @ [b],
                           pending_transactions :=
                             [Transaction_init dg t_reward None mining_reward_address
                                (PyInt (mining_reward z)) None]\<rparr>))))"

definition create_transaction :: "transaction \<Rightarrow> zenchain \<Rightarrow> zenchain" where
  "create_transaction tx z = z\<lparr>pending_transactions := pending_transactions z @ [tx]\<rparr>"





text \<open>
  \<^verbatim>\<open>is_chain_valid\<close>: the loop over \<^verbatim>\<open>range(1, len(self.chain))\<close>, from the
  position \<open>i\<close> on.
\<close>

function is_chain_valid_from :: "digest \<Rightarrow> block list \<Rightarrow> nat \<Rightarrow> bool" where
  "is_chain_valid_from dg ch i =
     (if i < length ch then
        (if hash (ch ! i) \<noteq> calculate_hash dg (ch ! i) then False
         else if previous_hash (ch ! i) \<noteq> hash (ch ! (i - 1)) then False
         else is_chain_valid_from dg ch (Suc i))
      else True)"
  by pat_completeness auto
termination
  by (relation "measure (\<lambda>(dg, ch, i). length ch - i)") auto

declare is_chain_valid_from.simps [simp del]

definition is_chain_valid :: "digest \<Rightarrow> zenchain \<Rightarrow> bool" where
  "is_chain_valid dg z = is_chain_valid_from dg (chain z) 1"

text \<open>
  \<^verbatim>\<open>create_nft\<close>: \<open>t_created\<close> is the clock reading stored in the registry, \<open>t_tx\<close>
  the one of the transaction. The result is the returned flag and the ledger.
\<close>

definition create_nft ::
  "digest \<Rightarrow> real \<Rightarrow> real \<Rightarrow> string \<Rightarrow> string \<Rightarrow> string \<Rightarrow> string \<Rightarrow> zenchain
     \<Rightarrow> bool \<times> zenchain" where
  "create_nft dg t_created t_tx owner_address nft_id nft_name nft_description z =
     (if nft_id \<in> dom (nft_collections z) then (False, z)
      else
        (let z1 = z\<lparr>nft_collections := (nft_collections z)(nft_id \<mapsto>
                     \<lparr>owner = owner_address, name = nft_name,
                      description = nft_description, created_at = t_created\<rparr>)\<rparr>;
             nft_transaction =
               Transaction_init dg t_tx None owner_address (PyInt 0)
                 (Some [(''action'', ''create''), (''nft_id'', nft_id),
                        (''name'', nft_name), (''description'', nft_description)])
         in (True, create_transaction nft_transaction z1)))"

definition transfer_nft ::
  "digest \<Rightarrow> real \<Rightarrow> string \<Rightarrow> string \<Rightarrow> string \<Rightarrow> zenchain \<Rightarrow> bool \<times> zenchain" where
  "transfer_nft dg t_tx sndr rcpt nft_id z =
     (case nft_collections z nft_id of
        None \<Rightarrow> (False, z)
      | Some entry \<Rightarrow>
          (if owner entry \<noteq> sndr then (False, z)
           else
             (let z1 = z\<lparr>nft_collections :=
                          (nft_collections z)(nft_id \<mapsto> entry\<lparr>owner := rcpt\<rparr>)\<rparr>;
                  nft_transaction =
                    Transaction_init dg t_tx (Some sndr) rcpt (PyInt 0)
                      (Some [(''action'', ''transfer''), (''nft_id'', nft_id)])
              in (True, create_transaction nft_transaction z1))))"

subsection \<open>Sequences of calls\<close>

text \<open>
  The calls that change a ledger, each with the clock readings it makes. A call that
  raises or never returns leaves no ledger behind: \<open>perform\<close> is \<open>None\<close> there.
\<close>

datatype call =
    Create_transaction transaction
  | Mine_pending_transactions real real string
  | Create_nft real real string string string string
  | Transfer_nft real string string string

fun perform :: "digest \<Rightarrow> call \<Rightarrow> zenchain \<Rightarrow> zenchain option" where
  "perform dg (Create_transaction tx) z = Some (create_transaction tx z)"
| "perform dg (Mine_pending_transactions t_block t_reward a) z =
     (case mine_pending_transactions dg t_block t_reward a z of
        Some (Inr z') \<Rightarrow> Some z'
      | Some (Inl e) \<Rightarrow> None
      | None \<Rightarrow> None)"
| "perform dg (Create_nft t_created t_tx a nft_id nm ds) z =
     Some (snd (create_nft dg t_created t_tx a nft_id nm ds z))"
| "perform dg (Transfer_nft t_tx a a' nft_id) z =
     Some (snd (transfer_nft dg t_tx a a' nft_id z))"

fun run :: "digest \<Rightarrow> call list \<Rightarrow> zenchain \<Rightarrow> zenchain option" where
  "run dg [] z = Some z"
| "run dg (c # cs) z = (case perform dg c z of None \<Rightarrow> None | Some z' \<Rightarrow> run dg cs z')"

subsection \<open>Tampering\<close>

text \<open>
  The assignment \<^verbatim>\<open>chain[i].transactions[j].amount = a\<close> made from outside the
  ledger: no hash is recomputed. (At a position out of range, where Python raises,
  the list update changes nothing.)
\<close>

definition set_amount :: "nat \<Rightarrow> number \<Rightarrow> block \<Rightarrow> block" where
  "set_amount j a b = b\<lparr>transactions := (transactions b)[j := (transactions b ! j)\<lparr>amount := a\<rparr>]\<rparr>"

definition tamper_amount :: "nat \<Rightarrow> nat \<Rightarrow> number \<Rightarrow> zenchain \<Rightarrow> zenchain" where
  "tamper_amount i j a z = z\<lparr>chain := (chain z)[i := set_amount j a (chain z ! i)]\<rparr>"

subsection \<open>The balance as a sum\<close>


subsection \<open>Notions used in the proofs\<close>

text \<open>The two tests \<^verbatim>\<open>is_chain_valid\<close> makes at the position \<open>k\<close>.\<close>

definition links :: "digest \<Rightarrow> block list \<Rightarrow> nat \<Rightarrow> bool" where
  "links dg ch k \<longleftrightarrow>
     hash (ch ! k) = calculate_hash dg (ch ! k) \<and> previous_hash (ch ! k) = hash (ch ! (k - 1))"

text \<open>The invariant of the ledger under its own operations.\<close>

definition sound :: "digest \<Rightarrow> zenchain \<Rightarrow> bool" where
  "sound dg z \<longleftrightarrow> chain z \<noteq> [] \<and> is_chain_valid dg z"

subsection \<open>A digest and ledgers for examples\<close>

text \<open>
  A small function of the right type, for evaluating the definitions on concrete
  ledgers. The digest of a dictionary with a \<^verbatim>\<open>nonce\<close> starts with two zeros once
  the nonce has reached \<open>2\<close>, and goes on with the amounts of the transactions in
  unary; any other value has the digest \<^verbatim>\<open>e3b0\<close>.
\<close>

fun amount_tag :: "json \<Rightarrow> string" where
  "amount_tag (JDict kvs) =
     (case map_of kvs ''amount'' of
        Some (JInt a) \<Rightarrow> replicate (nat \<bar>a\<bar>) CHR ''1'' @ ''.''
      | _ \<Rightarrow> [])"
| "amount_tag _ = []"

definition example_digest :: digest where
  "example_digest v =
     (case v of
        JDict kvs \<Rightarrow>
          (case map_of kvs ''nonce'' of
             Some (JInt n) \<Rightarrow>
               (if 2 \<le> n then ''00'' else ''7f'') @
               (case map_of kvs ''transactions'' of
                  Some (JList ts) \<Rightarrow> concat (map amount_tag ts)
                | _ \<Rightarrow> [])
           | _ \<Rightarrow> ''e3b0'')
      | _ \<Rightarrow> ''e3b0'')"

text \<open>A payment of \<open>10\<close> from \<^verbatim>\<open>alice\<close> to \<^verbatim>\<open>bob\<close>, made at time \<open>1\<close>.\<close>

definition example_tx :: transaction where
  "example_tx = Transaction_init example_digest 1 (Some ''alice'') ''bob'' (PyInt 10) None"

text \<open>
  The ledger created at time \<open>0\<close>, after \<open>example_tx\<close> was submitted and a block was
  mined at time \<open>2\<close> for \<^verbatim>\<open>miner\<close>, whose reward is dated \<open>3\<close>.
\<close>

definition example_ledger :: zenchain where
  "example_ledger =
     \<lparr>chain =
        [\<lparr>index = 0, transactions = [], timestamp = 0, previous_hash = ''0'', nonce = 0,
          hash = ''7f''\<rparr>,
         \<lparr>index = 1, transactions = [example_tx], timestamp = 2, previous_hash = ''7f'',
          nonce = 2, hash = ''001111111111.''\<rparr>],
      difficulty = 2,
      pending_transactions =
        [\<lparr>sender = None, recipient = ''miner'', amount = PyInt 100, nft_data = None,
          tx_timestamp = 3, tx_hash = ''e3b0''\<rparr>],
      mining_reward = 100,
      nft_collections = Map.empty\<rparr>"




text \<open>
  For any digest: the chain of a genesis block and one more block, both as the
  constructor builds them, the second holding a payment of \<open>a\<close> from \<^verbatim>\<open>alice\<close> to
  \<^verbatim>\<open>bob\<close>.
\<close>

definition paid_ledger :: "digest \<Rightarrow> int \<Rightarrow> zenchain" where
  "paid_ledger dg a =
     \<lparr>chain =
        [create_genesis_block dg 0,
         Block_init dg 1 [Transaction_init dg 1 (Some ''alice'') ''bob'' (PyInt a) None] 2
           (hash (create_genesis_block dg 0)) 0],
      difficulty = 2, pending_transactions = [], mining_reward = 100,
      nft_collections = Map.empty\<rparr>"

text \<open>The fresh ledger after \<^verbatim>\<open>alice\<close> has created the asset \<^verbatim>\<open>X\<close>.\<close>

definition nft_ledger :: zenchain where
  "nft_ledger =
     snd (create_nft example_digest 1 2 ''alice'' ''X'' ''art'' ''a picture''
            (ZenChain_init example_digest 0))"

section \<open>Proof of work\<close>

lemma mine_block_solved: "\<not> unsolved d b \<Longrightarrow> mine_block dg d b = Some b"
  by (subst mine_block.simps) simp

lemma mine_block_unsolved:
  "unsolved d b \<Longrightarrow> mine_block dg d b = mine_block dg d (mine_step dg b)"
  by (subst mine_block.simps) simp

lemma mine_step_frame:
  "index (mine_step dg b) = index b" "transactions (mine_step dg b) = transactions b"
  "timestamp (mine_step dg b) = timestamp b" "previous_hash (mine_step dg b) = previous_hash b"
  "nonce (mine_step dg b) = nonce b + 1"
  by (simp_all add: mine_step_def Let_def)

lemma mine_step_hash: "hash (mine_step dg b) = calculate_hash dg (mine_step dg b)"
  by (simp add: mine_step_def Let_def calculate_hash_def block_dict_def)

text \<open>
  A search that returns has run the loop body some \<open>k\<close> times: it returns the first
  iterate of the body that passes the test.
\<close>

lemma mine_block_funpow:
  assumes "mine_block dg d b = Some b'"
  shows "\<exists>k. b' = (mine_step dg ^^ k) b \<and> \<not> unsolved d b' \<and>
             (\<forall>j<k. unsolved d ((mine_step dg ^^ j) b))"
  using assms
proof (induction dg d b b' rule: mine_block.raw_induct)
  case (1 mb dg d b b')
  show ?case
  proof (cases "unsolved d b")
    case True
    have rec: "mine_block dg d (mine_step dg b) = Some b'"
      using True \<open>mine_block dg d b = Some b'\<close> by (simp add: mine_block_unsolved)
    have "mb dg d (mine_step dg b) = Some b'"
      using "1" True by simp
    with "1" rec obtain k where k: "b' = (mine_step dg ^^ k) (mine_step dg b)"
       "\<not> unsolved d b'"
       "\<forall>j<k. unsolved d ((mine_step dg ^^ j) (mine_step dg b))" by blast
    have "\<forall>j<Suc k. unsolved d ((mine_step dg ^^ j) b)"
    proof (intro allI impI)
      fix j assume "j < Suc k"
      then show "unsolved d ((mine_step dg ^^ j) b)"
        using True k(3) by (cases j) (auto simp: funpow_swap1)
    qed
    moreover have "b' = (mine_step dg ^^ Suc k) b" using k(1) by (simp add: funpow_swap1)
    ultimately show ?thesis using k(2) by blast
  next
    case False
    with "1" have "b' = b" by simp
    with False show ?thesis by (intro exI[of _ 0]) simp
  qed
qed (rule assms)

lemma funpow_mine_step_frame:
  "index ((mine_step dg ^^ k) b) = index b \<and>
   transactions ((mine_step dg ^^ k) b) = transactions b \<and>
   timestamp ((mine_step dg ^^ k) b) = timestamp b \<and>
   previous_hash ((mine_step dg ^^ k) b) = previous_hash b \<and>
   nonce ((mine_step dg ^^ k) b) = nonce b + int k"
  by (induction k) (simp_all add: mine_step_frame)

lemma funpow_mine_step_hash:
  "hash b = calculate_hash dg b \<Longrightarrow>
   hash ((mine_step dg ^^ k) b) = calculate_hash dg ((mine_step dg ^^ k) b)"
  by (cases k) (simp_all add: mine_step_hash)

text \<open>The search returns as soon as some iterate of the loop body passes the test.\<close>

lemma mine_block_terminates:
  "\<not> unsolved d ((mine_step dg ^^ k) b) \<Longrightarrow> \<exists>b'. mine_block dg d b = Some b'"
proof (induction k arbitrary: b)
  case 0
  then show ?case by (simp add: mine_block_solved)
next
  case (Suc k)
  show ?case
  proof (cases "unsolved d b")
    case True
    from Suc.prems have "\<not> unsolved d ((mine_step dg ^^ k) (mine_step dg b))"
      by (simp add: funpow_swap1)
    from Suc.IH[OF this] show ?thesis using True by (simp add: mine_block_unsolved)
  next
    case False
    then show ?thesis by (simp add: mine_block_solved)
  qed
qed

lemma unsolved_take:
  "\<not> unsolved d b \<Longrightarrow> take (nat d) (hash b) = replicate (nat d) CHR ''0''"
  by (cases "0 \<le> d") (auto simp: unsolved_def py_prefix_def py_repeat_def)

lemma Block_init_hash:
  "hash (Block_init dg i txs ts ph n) = calculate_hash dg (Block_init dg i txs ts ph n)"
  by (simp add: Block_init_def Let_def calculate_hash_def block_dict_def)

lemma mine_block_results:
  assumes "mine_block dg d b = Some b'"
  shows "index b' = index b" "transactions b' = transactions b" "timestamp b' = timestamp b"
    "previous_hash b' = previous_hash b" "\<not> unsolved d b'"
    "hash b = calculate_hash dg b \<Longrightarrow> hash b' = calculate_hash dg b'"
    "nonce b \<le> nonce b'"
proof -
  from mine_block_funpow[OF assms] obtain k
    where k: "b' = (mine_step dg ^^ k) b" "\<not> unsolved d b'"
    by blast
  show "index b' = index b" "transactions b' = transactions b" "timestamp b' = timestamp b"
    "previous_hash b' = previous_hash b" "nonce b \<le> nonce b'"
    using funpow_mine_step_frame[where dg=dg and k=k and b=b] by (simp_all add: k(1))
  show "\<not> unsolved d b'" by (rule k(2))
  show "hash b = calculate_hash dg b \<Longrightarrow> hash b' = calculate_hash dg b'"
    unfolding k(1) by (rule funpow_mine_step_hash)
qed

text \<open>
  A block is consistent (its stored hash is the hash of its fields) exactly when it is
  what the constructor builds from its fields, whatever its nonce.
\<close>

lemma consistent_iff_Block_init:
  "hash b = calculate_hash dg b \<longleftrightarrow>
   b = Block_init dg (index b) (transactions b) (timestamp b) (previous_hash b) (nonce b)"
proof
  assume h: "hash b = calculate_hash dg b"
  have "calculate_hash dg b =
        calculate_hash dg \<lparr>index = index b, transactions = transactions b,
          timestamp = timestamp b, previous_hash = previous_hash b, nonce = nonce b, hash = []\<rparr>"
    by (simp add: calculate_hash_def block_dict_def)
  with h show "b = Block_init dg (index b) (transactions b) (timestamp b) (previous_hash b) (nonce b)"
    by (simp add: Block_init_def Let_def)
next
  assume "b = Block_init dg (index b) (transactions b) (timestamp b) (previous_hash b) (nonce b)"
  then show "hash b = calculate_hash dg b"
    by (metis Block_init_hash)
qed

lemma Transaction_init_fields:
  "sender (Transaction_init dg now s r a d) = s"
  "recipient (Transaction_init dg now s r a d) = r"
  "amount (Transaction_init dg now s r a d) = a"
  "nft_data (Transaction_init dg now s r a d) = d"
  "tx_timestamp (Transaction_init dg now s r a d) = now"
  "tx_hash (Transaction_init dg now s r a d) =
     tx_calculate_hash dg (Transaction_init dg now s r a d)"
  by (simp_all add: Transaction_init_def Let_def tx_calculate_hash_def)

subsection \<open>Evaluation under the example digest\<close>

lemma amount_tag_to_dict:
  "amount_tag (to_dict t) =
     (case amount t of PyInt a \<Rightarrow> replicate (nat \<bar>a\<bar>) CHR ''1'' @ ''.'' | PyFloat f \<Rightarrow> [])"
  by (simp add: to_dict_def number_json_def split: number.splits)

lemma example_digest_block:
  "calculate_hash example_digest b =
     (if 2 \<le> nonce b then ''00'' else ''7f'') @
     concat (map (\<lambda>t. amount_tag (to_dict t)) (transactions b))"
  by (simp add: calculate_hash_def block_dict_def example_digest_def comp_def)

lemma example_digest_tx: "tx_calculate_hash example_digest t = ''e3b0''"
  by (simp add: tx_calculate_hash_def example_digest_def)

lemma example_tx_eq:
  "example_tx = \<lparr>sender = Some ''alice'', recipient = ''bob'', amount = PyInt 10, nft_data = None,
                 tx_timestamp = 1, tx_hash = ''e3b0''\<rparr>"
  by (simp add: example_tx_def Transaction_init_def Let_def example_digest_tx)

lemma replicate_numeral_Cons: "replicate (numeral k) x = x # replicate (pred_numeral k) x"
  by (simp add: numeral_eq_Suc)

lemma unsolved_2: "unsolved 2 b \<longleftrightarrow> take 2 (hash b) \<noteq> ''00''"
  by (simp add: unsolved_def py_prefix_def py_repeat_def numeral_2_eq_2)

lemma mine_block_example:
  "mine_block example_digest 2 (Block_init example_digest i txs ts ph 0) =
     Some \<lparr>index = i, transactions = txs, timestamp = ts, previous_hash = ph, nonce = 2,
           hash = ''00'' @ concat (map (\<lambda>t. amount_tag (to_dict t)) txs)\<rparr>"
  by (simp add: Block_init_def Let_def mine_block_unsolved mine_block_solved unsolved_2
      mine_step_def example_digest_block)

subsection \<open>The claims about mining a block\<close>

text \<open>
  C9. For every block and every difficulty \<open>D\<close>, a call of \<^verbatim>\<open>mine_block(D)\<close> that
  returns has changed only the nonce and the hash of the block: the index, the
  transaction list, the time stamp and the previous hash are as before the call.
\<close>

theorem mine_block_frame:
  "mine_block dg D b = Some b' \<Longrightarrow>
     index b' = index b \<and> transactions b' = transactions b \<and>
     timestamp b' = timestamp b \<and> previous_hash b' = previous_hash b \<and>
     b' = b\<lparr>nonce := nonce b', hash := hash b'\<rparr>"
  by (simp add: mine_block_results)

theorem mine_block_frame_witness:
  "mine_block example_digest 2 (Block_init example_digest 1 [] 5 ''7f'' 0) =
     Some \<lparr>index = 1, transactions = [], timestamp = 5, previous_hash = ''7f'',
           nonce = 2, hash = ''00''\<rparr> \<and>
   index \<lparr>index = 1, transactions = [], timestamp = 5, previous_hash = ''7f'',
          nonce = 2, hash = ''00''\<rparr> = index (Block_init example_digest 1 [] 5 ''7f'' 0) \<and>
   previous_hash \<lparr>index = 1, transactions = [], timestamp = 5, previous_hash = ''7f'',
          nonce = 2, hash = ''00''\<rparr> =
     previous_hash (Block_init example_digest 1 [] 5 ''7f'' 0)"
  using mine_block_frame[of example_digest 2 "Block_init example_digest 1 [] 5 ''7f'' 0"]
    mine_block_example[of 1 "[]" 5 "''7f''"]
  by simp

text \<open>
  C4. For every block, as the constructor builds it from any fields, and every
  difficulty \<open>D\<close>: when \<^verbatim>\<open>mine_block(D)\<close> returns, the stored hash is the hash
  recomputed from the fields the block then has, and the first \<open>D\<close> characters of the
  stored hash are all \<open>0\<close>. With \<open>D = 0\<close> the call returns at once and the block is as
  it was, so that a block built with the default nonce keeps the nonce \<open>0\<close>.
  The loop tests the stored hash before it recomputes anything; it is the constructor
  that makes the stored hash of a block the hash of its fields, and every block with
  that property is one the constructor builds (\<open>consistent_iff_Block_init\<close>).
\<close>

theorem mine_block_correct:
  "(\<forall>b'. mine_block dg D (Block_init dg i txs ts ph n) = Some b' \<longrightarrow>
        hash b' = calculate_hash dg b' \<and>
        take (nat D) (hash b') = replicate (nat D) CHR ''0'') \<and>
   mine_block dg 0 (Block_init dg i txs ts ph n) = Some (Block_init dg i txs ts ph n) \<and>
   nonce (Block_init dg i txs ts ph 0) = 0"
proof (intro conjI allI impI)
  fix b' assume m: "mine_block dg D (Block_init dg i txs ts ph n) = Some b'"
  show "hash b' = calculate_hash dg b'"
    using mine_block_results(6)[OF m] by (simp add: Block_init_hash)
  show "take (nat D) (hash b') = replicate (nat D) CHR ''0''"
    using mine_block_results(5)[OF m] by (rule unsolved_take)
next
  show "mine_block dg 0 (Block_init dg i txs ts ph n) = Some (Block_init dg i txs ts ph n)"
    by (rule mine_block_solved) (simp add: unsolved_def py_prefix_def py_repeat_def)
  show "nonce (Block_init dg i txs ts ph 0) = 0"
    by (simp add: Block_init_def Let_def)
qed

theorem mine_block_correct_witness:
  "mine_block example_digest 2 (Block_init example_digest 1 [] 5 ''7f'' 0) =
     Some \<lparr>index = 1, transactions = [], timestamp = 5, previous_hash = ''7f'',
           nonce = 2, hash = ''00''\<rparr> \<and>
   ''00'' = calculate_hash example_digest
     \<lparr>index = 1, transactions = [], timestamp = 5, previous_hash = ''7f'',
      nonce = 2, hash = ''00''\<rparr> \<and>
   take 2 ''00'' = replicate 2 CHR ''0''"
  using mine_block_correct[of example_digest 2 1 "[]" 5 "''7f''" 0]
    mine_block_example[of 1 "[]" 5 "''7f''"]
  by (simp add: example_digest_block)

section \<open>The fresh ledger\<close>

text \<open>
  C10. A freshly constructed ledger has difficulty \<open>2\<close>, mining reward \<open>100\<close>, an empty
  pending pool, an empty asset registry, and a chain of exactly one block, the genesis
  block, whose index is \<open>0\<close>, whose transaction list is empty and whose previous hash is
  the string \<^verbatim>\<open>"0"\<close>.
\<close>

theorem ZenChain_init_fields:
  "difficulty (ZenChain_init dg now) = 2 \<and>
   mining_reward (ZenChain_init dg now) = 100 \<and>
   pending_transactions (ZenChain_init dg now) = [] \<and>
   nft_collections (ZenChain_init dg now) = Map.empty \<and>
   chain (ZenChain_init dg now) = [create_genesis_block dg now] \<and>
   index (create_genesis_block dg now) = 0 \<and>
   transactions (create_genesis_block dg now) = [] \<and>
   previous_hash (create_genesis_block dg now) = ''0''"
  by (simp add: ZenChain_init_def create_genesis_block_def Block_init_def Let_def)

section \<open>Mining the pending pool\<close>

lemma fresh_ledger_example:
  "create_transaction example_tx (ZenChain_init example_digest 0) =
     \<lparr>chain = [\<lparr>index = 0, transactions = [], timestamp = 0, previous_hash = ''0'',
                nonce = 0, hash = ''7f''\<rparr>],
      difficulty = 2, pending_transactions = [example_tx], mining_reward = 100,
      nft_collections = Map.empty\<rparr>"
  by (simp add: create_transaction_def ZenChain_init_def create_genesis_block_def
      Block_init_def Let_def example_digest_block)

lemma mine_example:
  "mine_pending_transactions example_digest 2 3 ''miner''
     (create_transaction example_tx (ZenChain_init example_digest 0)) =
   Some (Inr example_ledger)"
  by (subst fresh_ledger_example)
    (simp add: mine_pending_transactions_def get_latest_block_def
      mine_block_example example_ledger_def Transaction_init_def Let_def example_digest_tx
      example_tx_eq amount_tag_to_dict replicate_numeral_Cons)

text \<open>
  C1. For every ledger and every reward address \<open>R\<close>, a call of
  \<^verbatim>\<open>mine_pending_transactions(R)\<close> that returns has built a block whose index is the
  length of the chain before the call, whose transactions are the pending pool before
  the call and whose previous hash is the stored hash of the last block of the chain
  before the call; it has mined that block at the difficulty of the ledger and appended
  the result to the chain; and the pending pool is now the one transaction with no
  sender, the recipient \<open>R\<close> and the mining reward of the ledger as amount. The call
  returns whenever the chain is not empty and some nonce solves the puzzle.
\<close>

theorem mine_pending_transactions_effect:
  "(mine_pending_transactions dg t_block t_reward R z = Some (Inr z') \<longrightarrow>
      chain z \<noteq> [] \<and>
      (\<exists>b. chain z' = chain z @ [b] \<and>
           mine_block dg (difficulty z)
             (Block_init dg (int (length (chain z))) (pending_transactions z) t_block
                (hash (last (chain z))) 0) = Some b \<and>
           index b = int (length (chain z)) \<and>
           transactions b = pending_transactions z \<and>
           timestamp b = t_block \<and>
           previous_hash b = hash (last (chain z)) \<and>
           hash b = calculate_hash dg b \<and>
           take (nat (difficulty z)) (hash b) = replicate (nat (difficulty z)) CHR ''0'') \<and>
      pending_transactions z' = [Transaction_init dg t_reward None R (PyInt (mining_reward z)) None] \<and>
      difficulty z' = difficulty z \<and> mining_reward z' = mining_reward z \<and>
      nft_collections z' = nft_collections z) \<and>
   sender (Transaction_init dg t_reward None R (PyInt (mining_reward z)) None) = None \<and>
   recipient (Transaction_init dg t_reward None R (PyInt (mining_reward z)) None) = R \<and>
   amount (Transaction_init dg t_reward None R (PyInt (mining_reward z)) None) =
     PyInt (mining_reward z) \<and>
   (chain z \<noteq> [] \<and>
    \<not> unsolved (difficulty z)
        ((mine_step dg ^^ k)
           (Block_init dg (int (length (chain z))) (pending_transactions z) t_block
              (hash (last (chain z))) 0)) \<longrightarrow>
    (\<exists>z''. mine_pending_transactions dg t_block t_reward R z = Some (Inr z'')))"
proof (intro conjI impI)
  let ?b0 = "Block_init dg (int (length (chain z))) (pending_transactions z) t_block
                (hash (last (chain z))) 0"
  {
    assume m: "mine_pending_transactions dg t_block t_reward R z = Some (Inr z')"
    then show ne: "chain z \<noteq> []"
      by (auto simp: mine_pending_transactions_def get_latest_block_def split: if_splits)
    from m ne obtain b where b: "mine_block dg (difficulty z) ?b0 = Some b"
      and z': "z' = z\<lparr>chain := chain z @ [b],
                 pending_transactions :=
                   [Transaction_init dg t_reward None R (PyInt (mining_reward z)) None]\<rparr>"
      by (auto simp: mine_pending_transactions_def get_latest_block_def split: option.splits)
    note r = mine_block_results[OF b]
    have "hash b = calculate_hash dg b" by (rule r(6)) (rule Block_init_hash)
    moreover have "take (nat (difficulty z)) (hash b) = replicate (nat (difficulty z)) CHR ''0''"
      by (rule unsolved_take) (rule r(5))
    ultimately show "\<exists>b. chain z' = chain z @ [b] \<and>
           mine_block dg (difficulty z) ?b0 = Some b \<and>
           index b = int (length (chain z)) \<and>
           transactions b = pending_transactions z \<and>
           timestamp b = t_block \<and>
           previous_hash b = hash (last (chain z)) \<and>
           hash b = calculate_hash dg b \<and>
           take (nat (difficulty z)) (hash b) = replicate (nat (difficulty z)) CHR ''0''"
      using b r(1-4) by (intro exI[of _ b]) (simp add: z' Block_init_def Let_def)
    show "pending_transactions z' = [Transaction_init dg t_reward None R (PyInt (mining_reward z)) None]"
      "difficulty z' = difficulty z" "mining_reward z' = mining_reward z"
      "nft_collections z' = nft_collections z"
      by (simp_all add: z')
  }
  show "sender (Transaction_init dg t_reward None R (PyInt (mining_reward z)) None) = None"
    "recipient (Transaction_init dg t_reward None R (PyInt (mining_reward z)) None) = R"
    "amount (Transaction_init dg t_reward None R (PyInt (mining_reward z)) None) =
       PyInt (mining_reward z)"
    by (simp_all add: Transaction_init_fields)
  assume "chain z \<noteq> [] \<and> \<not> unsolved (difficulty z) ((mine_step dg ^^ k) ?b0)"
  then have ne: "chain z \<noteq> []" and "\<exists>b'. mine_block dg (difficulty z) ?b0 = Some b'"
    by (auto intro: mine_block_terminates)
  then show "\<exists>z''. mine_pending_transactions dg t_block t_reward R z = Some (Inr z'')"
    by (auto simp: mine_pending_transactions_def get_latest_block_def)
qed

theorem mine_pending_transactions_effect_witness:
  "mine_pending_transactions example_digest 2 3 ''miner''
     (create_transaction example_tx (ZenChain_init example_digest 0)) =
     Some (Inr example_ledger) \<and>
   length (chain example_ledger) = 2 \<and>
   index (last (chain example_ledger)) = 1 \<and>
   transactions (last (chain example_ledger)) = [example_tx] \<and>
   take 2 (hash (last (chain example_ledger))) = ''00'' \<and>
   pending_transactions example_ledger =
     [Transaction_init example_digest 3 None ''miner'' (PyInt 100) None]"
  using mine_pending_transactions_effect[of example_digest 2 3 "''miner''"
      "create_transaction example_tx (ZenChain_init example_digest 0)" example_ledger 2]
    mine_example
  by (simp add: example_ledger_def Transaction_init_def Let_def example_digest_tx)

section \<open>Validity of the chain\<close>

text \<open>The loop of \<^verbatim>\<open>is_chain_valid\<close> accepts exactly when every position passes.\<close>

lemma is_chain_valid_from_iff:
  "is_chain_valid_from dg ch i \<longleftrightarrow> (\<forall>k. i \<le> k \<and> k < length ch \<longrightarrow> links dg ch k)"
proof (induction dg ch i rule: is_chain_valid_from.induct)
  case (1 dg ch i)
  show ?case
  proof (cases "i < length ch")
    case False
    then show ?thesis by (subst is_chain_valid_from.simps) auto
  next
    case True
    show ?thesis
    proof (cases "links dg ch i")
      case False
      then have "\<not> is_chain_valid_from dg ch i"
        using True by (subst is_chain_valid_from.simps) (auto simp: links_def)
      moreover have "\<not> (\<forall>k. i \<le> k \<and> k < length ch \<longrightarrow> links dg ch k)"
        using True False by blast
      ultimately show ?thesis by blast
    next
      case l: True
      then have "is_chain_valid_from dg ch i = is_chain_valid_from dg ch (Suc i)"
        using True by (subst is_chain_valid_from.simps) (auto simp: links_def)
      also have "\<dots> \<longleftrightarrow> (\<forall>k. Suc i \<le> k \<and> k < length ch \<longrightarrow> links dg ch k)"
        using "1.IH" True l by (simp add: links_def)
      also have "\<dots> \<longleftrightarrow> (\<forall>k. i \<le> k \<and> k < length ch \<longrightarrow> links dg ch k)"
        using l by (metis Suc_leD Suc_leI le_neq_implies_less)
      finally show ?thesis .
    qed
  qed
qed

lemma is_chain_valid_iff:
  "is_chain_valid dg z \<longleftrightarrow> (\<forall>k. 0 < k \<and> k < length (chain z) \<longrightarrow> links dg (chain z) k)"
  by (simp add: is_chain_valid_def is_chain_valid_from_iff Suc_le_eq)

lemma links_append:
  assumes "ch \<noteq> []" "k < length ch" "0 < k"
  shows "links dg (ch @ [b]) k = links dg ch k"
  using assms by (auto simp: links_def nth_append)

lemma links_new:
  assumes "ch \<noteq> []"
  shows "links dg (ch @ [b]) (length ch) \<longleftrightarrow>
         hash b = calculate_hash dg b \<and> previous_hash b = hash (last ch)"
  using assms by (simp add: links_def nth_append last_conv_nth)

lemma valid_append:
  assumes "chain z \<noteq> []" "is_chain_valid dg z" "hash b = calculate_hash dg b"
    "previous_hash b = hash (last (chain z))"
  shows "is_chain_valid dg (z\<lparr>chain := chain z @ [b]\<rparr>)"
  unfolding is_chain_valid_iff
proof (intro allI impI)
  fix k assume k: "0 < k \<and> k < length (chain (z\<lparr>chain := chain z @ [b]\<rparr>))"
  show "links dg (chain (z\<lparr>chain := chain z @ [b]\<rparr>)) k"
  proof (cases "k < length (chain z)")
    case True
    then show ?thesis using assms k by (simp add: links_append is_chain_valid_iff)
  next
    case False
    with k have "k = length (chain z)" by simp
    then show ?thesis using assms by (simp add: links_new)
  qed
qed

subsection \<open>Every call keeps the chain valid\<close>

lemma create_nft_chain: "chain (snd (create_nft dg t1 t2 a i n d z)) = chain z"
  by (simp add: create_nft_def create_transaction_def Let_def)

lemma transfer_nft_chain: "chain (snd (transfer_nft dg t a a' i z)) = chain z"
  by (simp add: transfer_nft_def create_transaction_def Let_def split: option.splits)

lemma mine_sound:
  assumes "mine_pending_transactions dg t1 t2 R z = Some (Inr z')" "sound dg z"
  shows "sound dg z'"
proof -
  let ?b0 = "Block_init dg (int (length (chain z))) (pending_transactions z) t1
                (hash (last (chain z))) 0"
  from assms obtain b where b: "mine_block dg (difficulty z) ?b0 = Some b"
      and z': "z' = z\<lparr>chain := chain z @ [b],
                 pending_transactions :=
                   [Transaction_init dg t2 None R (PyInt (mining_reward z)) None]\<rparr>"
    by (auto simp: sound_def mine_pending_transactions_def get_latest_block_def
        split: option.splits)
  note r = mine_block_results[OF b]
  have "hash b = calculate_hash dg b" by (rule r(6)) (rule Block_init_hash)
  moreover have "previous_hash b = hash (last (chain z))"
    using r(4) by (simp add: Block_init_def Let_def)
  ultimately have "is_chain_valid dg (z\<lparr>chain := chain z @ [b]\<rparr>)"
    using assms(2) by (intro valid_append) (simp_all add: sound_def)
  then show ?thesis
    by (simp add: sound_def z' is_chain_valid_def)
qed

lemma perform_sound: "perform dg c z = Some z' \<Longrightarrow> sound dg z \<Longrightarrow> sound dg z'"
proof (cases c)
  case (Create_transaction tx)
  assume "perform dg c z = Some z'" "sound dg z"
  then show ?thesis using Create_transaction
    by (auto simp: sound_def create_transaction_def is_chain_valid_def)
next
  case (Mine_pending_transactions t1 t2 R)
  assume "perform dg c z = Some z'" "sound dg z"
  then show ?thesis using Mine_pending_transactions
    by (auto split: option.splits sum.splits intro: mine_sound)
next
  case (Create_nft t1 t2 a i n d)
  assume "perform dg c z = Some z'" "sound dg z"
  then show ?thesis using Create_nft create_nft_chain[of dg t1 t2 a i n d z]
    by (auto simp: sound_def is_chain_valid_def)
next
  case (Transfer_nft t a a' i)
  assume "perform dg c z = Some z'" "sound dg z"
  then show ?thesis using Transfer_nft transfer_nft_chain[of dg t a a' i z]
    by (auto simp: sound_def is_chain_valid_def)
qed

lemma run_sound: "run dg cs z = Some z' \<Longrightarrow> sound dg z \<Longrightarrow> sound dg z'"
  by (induction cs arbitrary: z) (auto split: option.splits dest: perform_sound)

lemma init_sound: "sound dg (ZenChain_init dg now)"
  by (simp add: sound_def is_chain_valid_iff ZenChain_init_def)

lemma run_example:
  "run example_digest
     [Create_transaction example_tx, Mine_pending_transactions 2 3 ''miner'']
     (ZenChain_init example_digest 0) = Some example_ledger"
  by (simp add: mine_example)

text \<open>
  C2. In every ledger reached from a freshly constructed one by any sequence of calls
  of \<^verbatim>\<open>create_transaction\<close>, \<^verbatim>\<open>mine_pending_transactions\<close>, \<^verbatim>\<open>create_nft\<close> and
  \<^verbatim>\<open>transfer_nft\<close>, \<^verbatim>\<open>is_chain_valid()\<close> returns true, the chain is not empty,
  and every block at a position \<open>i > 0\<close> stores the hash of the block before it as its
  previous hash and the hash of its own fields as its hash. In particular
  \<^verbatim>\<open>is_chain_valid()\<close> returns true on the fresh ledger.
\<close>

theorem reachable_chain_valid:
  "(run dg calls (ZenChain_init dg now) = Some z \<longrightarrow>
      is_chain_valid dg z \<and> chain z \<noteq> [] \<and>
      (\<forall>i. 0 < i \<and> i < length (chain z) \<longrightarrow>
         previous_hash (chain z ! i) = hash (chain z ! (i - 1)) \<and>
         hash (chain z ! i) = calculate_hash dg (chain z ! i))) \<and>
   is_chain_valid dg (ZenChain_init dg now)"
proof (intro conjI impI)
  assume "run dg calls (ZenChain_init dg now) = Some z"
  then have s: "sound dg z" using init_sound by (rule run_sound)
  then show "is_chain_valid dg z" "chain z \<noteq> []" by (simp_all add: sound_def)
  from s show "\<forall>i. 0 < i \<and> i < length (chain z) \<longrightarrow>
         previous_hash (chain z ! i) = hash (chain z ! (i - 1)) \<and>
         hash (chain z ! i) = calculate_hash dg (chain z ! i)"
    by (simp add: sound_def is_chain_valid_iff links_def)
next
  show "is_chain_valid dg (ZenChain_init dg now)"
    using init_sound by (simp add: sound_def)
qed

theorem reachable_chain_valid_witness:
  "run example_digest
     [Create_transaction example_tx, Mine_pending_transactions 2 3 ''miner'']
     (ZenChain_init example_digest 0) = Some example_ledger \<and>
   is_chain_valid example_digest example_ledger \<and>
   length (chain example_ledger) = 2 \<and>
   previous_hash (chain example_ledger ! 1) = hash (chain example_ledger ! 0)"
  using reachable_chain_valid[of example_digest
      "[Create_transaction example_tx, Mine_pending_transactions 2 3 ''miner'']" 0
      example_ledger]
    run_example
  by (simp add: example_ledger_def)

subsection \<open>The first block stays the genesis block\<close>

lemma perform_genesis:
  assumes "perform dg c z = Some z'" "chain z \<noteq> []"
  shows "chain z' \<noteq> [] \<and> chain z' ! 0 = chain z ! 0"
proof (cases c)
  case (Create_transaction tx)
  then show ?thesis using assms by (auto simp: create_transaction_def)
next
  case (Mine_pending_transactions t1 t2 R)
  then show ?thesis using assms
    by (auto simp: mine_pending_transactions_def get_latest_block_def nth_append
        split: option.splits sum.splits if_splits)
next
  case (Create_nft t1 t2 a i n d)
  then show ?thesis using assms create_nft_chain[of dg t1 t2 a i n d z] by auto
next
  case (Transfer_nft t a a' i)
  then show ?thesis using assms transfer_nft_chain[of dg t a a' i z] by auto
qed

lemma run_genesis:
  "run dg cs z = Some z' \<Longrightarrow> chain z \<noteq> [] \<Longrightarrow> chain z' \<noteq> [] \<and> chain z' ! 0 = chain z ! 0"
proof (induction cs arbitrary: z)
  case Nil
  then show ?case by simp
next
  case (Cons c cs)
  from Cons.prems(1) obtain z1 where p: "perform dg c z = Some z1" and r: "run dg cs z1 = Some z'"
    by (auto split: option.splits)
  from perform_genesis[OF p Cons.prems(2)] Cons.IH[OF r] show ?case by simp
qed

text \<open>The first block of a ledger reached from a fresh one holds no transaction.\<close>

lemma reachable_genesis_empty:
  assumes "run dg cs (ZenChain_init dg now) = Some z"
  shows "transactions (chain z ! 0) = []"
proof -
  have "chain (ZenChain_init dg now) \<noteq> []" by (simp add: ZenChain_init_def)
  from run_genesis[OF assms this] show ?thesis
    by (simp add: ZenChain_init_def create_genesis_block_def Block_init_def Let_def)
qed

subsection \<open>Tampering with an amount\<close>

lemma set_amount_fields:
  "index (set_amount j a b) = index b" "timestamp (set_amount j a b) = timestamp b"
  "previous_hash (set_amount j a b) = previous_hash b" "nonce (set_amount j a b) = nonce b"
  "hash (set_amount j a b) = hash b"
  "transactions (set_amount j a b) = (transactions b)[j := (transactions b ! j)\<lparr>amount := a\<rparr>]"
  by (simp_all add: set_amount_def)

text \<open>A changed amount changes the dictionary that is hashed.\<close>

lemma block_dict_set_amount:
  assumes "j < length (transactions b)" "a \<noteq> amount (transactions b ! j)"
  shows "block_dict (set_amount j a b) \<noteq> block_dict b"
proof
  assume "block_dict (set_amount j a b) = block_dict b"
  then have "map to_dict ((transactions b)[j := (transactions b ! j)\<lparr>amount := a\<rparr>]) =
             map to_dict (transactions b)"
    by (simp add: block_dict_def set_amount_fields)
  then have "map to_dict ((transactions b)[j := (transactions b ! j)\<lparr>amount := a\<rparr>]) ! j =
             map to_dict (transactions b) ! j"
    by simp
  then have "to_dict ((transactions b ! j)\<lparr>amount := a\<rparr>) = to_dict (transactions b ! j)"
    using assms(1) by simp
  then show False using assms(2)
    by (simp add: to_dict_def number_json_def split: number.splits)
qed

lemma tamper_chain:
  "chain (tamper_amount i j a z) = (chain z)[i := set_amount j a (chain z ! i)]"
  by (simp add: tamper_amount_def)

lemma tamper_hash:
  "k < length (chain z) \<Longrightarrow> hash (chain (tamper_amount i j a z) ! k) = hash (chain z ! k)"
  by (cases "k = i") (simp_all add: tamper_chain set_amount_fields)

lemma tamper_previous_hash:
  "k < length (chain z) \<Longrightarrow>
   previous_hash (chain (tamper_amount i j a z) ! k) = previous_hash (chain z ! k)"
  by (cases "k = i") (simp_all add: tamper_chain set_amount_fields)

lemma tamper_links_other:
  assumes "k < length (chain z)" "k \<noteq> i"
  shows "links dg (chain (tamper_amount i j a z)) k = links dg (chain z) k"
proof -
  have "k - 1 < length (chain z)" using assms(1) by simp
  then have "hash (chain (tamper_amount i j a z) ! (k - 1)) = hash (chain z ! (k - 1))"
    by (rule tamper_hash)
  moreover have "chain (tamper_amount i j a z) ! k = chain z ! k"
    using assms by (simp add: tamper_chain)
  ultimately show ?thesis by (simp add: links_def)
qed

lemma tamper_links_self:
  assumes "i < length (chain z)" "links dg (chain z) i"
  shows "links dg (chain (tamper_amount i j a z)) i \<longleftrightarrow>
         calculate_hash dg (set_amount j a (chain z ! i)) = hash (chain z ! i)"
proof -
  have "i - 1 < length (chain z)" using assms(1) by simp
  then have "hash (chain (tamper_amount i j a z) ! (i - 1)) = hash (chain z ! (i - 1))"
    by (rule tamper_hash)
  moreover have "chain (tamper_amount i j a z) ! i = set_amount j a (chain z ! i)"
    using assms(1) by (simp add: tamper_chain)
  ultimately show ?thesis
    using assms(2) by (auto simp: links_def set_amount_fields)
qed

lemma tamper_genesis: "is_chain_valid dg (tamper_amount 0 j a z) = is_chain_valid dg z"
  by (simp add: is_chain_valid_iff tamper_chain tamper_links_other[simplified tamper_chain])

lemma tamper_valid_iff:
  assumes "is_chain_valid dg z" "0 < i" "i < length (chain z)"
  shows "is_chain_valid dg (tamper_amount i j a z) \<longleftrightarrow>
         calculate_hash dg (set_amount j a (chain z ! i)) = hash (chain z ! i)"
proof -
  have all: "\<And>k. 0 < k \<Longrightarrow> k < length (chain z) \<Longrightarrow> links dg (chain z) k"
    using assms(1) by (simp add: is_chain_valid_iff)
  have len: "length (chain (tamper_amount i j a z)) = length (chain z)"
    by (simp add: tamper_chain)
  show ?thesis
  proof
    assume "is_chain_valid dg (tamper_amount i j a z)"
    then have "links dg (chain (tamper_amount i j a z)) i"
      using assms(2,3) len by (simp add: is_chain_valid_iff)
    then show "calculate_hash dg (set_amount j a (chain z ! i)) = hash (chain z ! i)"
      using tamper_links_self[OF assms(3) all[OF assms(2,3)]] by simp
  next
    assume h: "calculate_hash dg (set_amount j a (chain z ! i)) = hash (chain z ! i)"
    have "links dg (chain (tamper_amount i j a z)) k"
      if "0 < k" "k < length (chain z)" for k
    proof (cases "k = i")
      case True
      then show ?thesis
        using tamper_links_self[OF assms(3) all[OF assms(2,3)]] h by simp
    next
      case False
      then show ?thesis using that all by (simp add: tamper_links_other)
    qed
    then show "is_chain_valid dg (tamper_amount i j a z)"
      unfolding is_chain_valid_iff len by blast
  qed
qed

text \<open>
  Detection needs a digest that gives the changed dictionary another value. No digest
  with finitely many values, as the \<open>64\<close> hexadecimal digits of SHA-256 are, does so
  for all amounts: some accepted chain has, in its block at position \<open>1\<close>, a transaction
  whose amount can be changed to a different one with the chain still accepted.
\<close>

lemma paid_ledger_valid: "is_chain_valid dg (paid_ledger dg a)"
  by (simp add: is_chain_valid_def is_chain_valid_from.simps paid_ledger_def Block_init_hash)
    (simp add: Block_init_def Let_def)

lemma paid_ledger_tampered:
  "is_chain_valid dg (tamper_amount 1 0 a' (paid_ledger dg a)) \<longleftrightarrow>
   calculate_hash dg (set_amount 0 a' (chain (paid_ledger dg a) ! 1)) =
   calculate_hash dg (chain (paid_ledger dg a) ! 1)"
  using tamper_valid_iff[OF paid_ledger_valid, of 1 dg a 0 a']
  by (simp add: paid_ledger_def Block_init_hash)

lemma tamper_undetected_by_collision:
  assumes "finite (range dg)"
  shows "\<exists>a a'. a' \<noteq> a \<and> is_chain_valid dg (paid_ledger dg a) \<and>
           amount (transactions (chain (paid_ledger dg a) ! 1) ! 0) = PyInt a \<and>
           is_chain_valid dg (tamper_amount 1 0 (PyInt a') (paid_ledger dg a))"
proof -
  let ?H = "\<lambda>a. tx_hash (Transaction_init dg 1 (Some ''alice'') ''bob'' (PyInt a) None)"
  have "finite (range ?H)"
    by (rule finite_subset[OF _ assms])
      (auto simp: Transaction_init_def Let_def tx_calculate_hash_def)
  then obtain a0 where inf: "infinite {a. ?H a = ?H a0}"
    using pigeonhole_infinite[of "UNIV :: int set" ?H] infinite_UNIV_int by auto
  let ?A = "{a. ?H a = ?H a0}"
  let ?D = "\<lambda>a. calculate_hash dg (set_amount 0 (PyInt a) (chain (paid_ledger dg a0) ! 1))"
  have "finite (?D ` ?A)"
    by (rule finite_subset[OF _ assms]) (auto simp: calculate_hash_def)
  with inf have "\<not> inj_on ?D ?A"
    using finite_imageD by blast
  then obtain a a' where aa: "a \<in> ?A" "a' \<in> ?A" "a' \<noteq> a" "?D a = ?D a'"
    by (auto simp: inj_on_def)
  have same: "calculate_hash dg (set_amount 0 x (chain (paid_ledger dg a) ! 1)) =
              calculate_hash dg (set_amount 0 x (chain (paid_ledger dg a0) ! 1))" for x
    using aa(1) by (simp add: paid_ledger_def set_amount_def Block_init_def Let_def
        Transaction_init_def calculate_hash_def block_dict_def to_dict_def)
  have self: "set_amount 0 (PyInt a) (chain (paid_ledger dg a) ! 1) = chain (paid_ledger dg a) ! 1"
    by (simp add: paid_ledger_def set_amount_def Block_init_def Let_def Transaction_init_def)
  have "calculate_hash dg (set_amount 0 (PyInt a') (chain (paid_ledger dg a) ! 1)) =
        calculate_hash dg (chain (paid_ledger dg a) ! 1)"
    using aa(4) same[of "PyInt a'"] same[of "PyInt a"] self by simp
  then have "is_chain_valid dg (tamper_amount 1 0 (PyInt a') (paid_ledger dg a))"
    by (rule paid_ledger_tampered[THEN iffD2])
  moreover have "amount (transactions (chain (paid_ledger dg a) ! 1) ! 0) = PyInt a"
    by (simp add: paid_ledger_def Block_init_def Let_def Transaction_init_def)
  ultimately show ?thesis using aa(3) paid_ledger_valid by blast
qed

lemma example_ledger_valid: "is_chain_valid example_digest example_ledger"
  by (simp add: is_chain_valid_def is_chain_valid_from.simps example_ledger_def
      example_digest_block example_tx_eq amount_tag_to_dict replicate_numeral_Cons)

lemma tamper_detected:
  assumes "is_chain_valid dg z" "0 < i" "i < length (chain z)"
    "j < length (transactions (chain z ! i))" "a \<noteq> amount (transactions (chain z ! i) ! j)"
    "inj_on dg {block_dict (chain z ! i), block_dict (set_amount j a (chain z ! i))}"
  shows "\<not> is_chain_valid dg (tamper_amount i j a z)"
proof -
  have ne: "block_dict (set_amount j a (chain z ! i)) \<noteq> block_dict (chain z ! i)"
    using assms(4,5) by (rule block_dict_set_amount)
  have "links dg (chain z) i"
    using assms(1-3) by (simp add: is_chain_valid_iff)
  then have "hash (chain z ! i) = dg (block_dict (chain z ! i))"
    by (simp add: links_def calculate_hash_def)
  moreover have "dg (block_dict (set_amount j a (chain z ! i))) \<noteq> dg (block_dict (chain z ! i))"
    using assms(6) ne by (auto simp: inj_on_def)
  ultimately have "calculate_hash dg (set_amount j a (chain z ! i)) \<noteq> hash (chain z ! i)"
    by (simp add: calculate_hash_def)
  then show ?thesis
    using assms(1-3) by (simp add: tamper_valid_iff)
qed

text \<open>
  C3. \<^verbatim>\<open>is_chain_valid\<close> returns true exactly when every block at a position from
  \<open>1\<close> on stores the hash recomputed from its fields and, as previous hash, the stored
  hash of the block before it: the scan starts at position \<open>1\<close>, stops with false at
  the first block that fails, and never tests the block at position \<open>0\<close>, whose
  transactions do not enter the answer. For every ledger reached from a fresh one by
  calls of the four operations, whose chain \<^verbatim>\<open>is_chain_valid\<close> accepts, and for every
  transaction of any block of that chain, changing the amount of the transaction to a
  different value, with no hash recomputed, makes \<^verbatim>\<open>is_chain_valid\<close> return false;
  such a chain has at least two blocks, the first block holding no transaction. The
  same holds for every chain \<^verbatim>\<open>is_chain_valid\<close> accepts, however it was built, and
  every block at a position from \<open>1\<close> on. The digest, SHA-256 of the JSON text, is
  taken to give the changed and the unchanged dictionary of the block different
  values; \<^verbatim>\<open>is_chain_valid\<close> accepts the changed chain exactly when the hash
  recomputed from the changed block is the stored one.
\<close>

theorem tamper_detection:
  "(is_chain_valid dg z \<longleftrightarrow>
      (\<forall>k. 0 < k \<and> k < length (chain z) \<longrightarrow>
         hash (chain z ! k) = calculate_hash dg (chain z ! k) \<and>
         previous_hash (chain z ! k) = hash (chain z ! (k - 1)))) \<and>
   (run dg calls (ZenChain_init dg now) = Some z \<and> i < length (chain z) \<and>
    j < length (transactions (chain z ! i)) \<and>
    a \<noteq> amount (transactions (chain z ! i) ! j) \<and>
    inj_on dg {block_dict (chain z ! i), block_dict (set_amount j a (chain z ! i))} \<longrightarrow>
      2 \<le> length (chain z) \<and> is_chain_valid dg z \<and>
      \<not> is_chain_valid dg (tamper_amount i j a z)) \<and>
   (is_chain_valid dg z \<and> 0 < i \<and> i < length (chain z) \<and>
    j < length (transactions (chain z ! i)) \<and>
    a \<noteq> amount (transactions (chain z ! i) ! j) \<and>
    inj_on dg {block_dict (chain z ! i), block_dict (set_amount j a (chain z ! i))} \<longrightarrow>
      \<not> is_chain_valid dg (tamper_amount i j a z)) \<and>
   (is_chain_valid dg z \<and> 0 < i \<and> i < length (chain z) \<longrightarrow>
      (is_chain_valid dg (tamper_amount i j a z) \<longleftrightarrow>
       calculate_hash dg (set_amount j a (chain z ! i)) = hash (chain z ! i))) \<and>
   is_chain_valid dg (tamper_amount 0 j a z) = is_chain_valid dg z"
proof (intro conjI impI)
  show "is_chain_valid dg z \<longleftrightarrow>
      (\<forall>k. 0 < k \<and> k < length (chain z) \<longrightarrow>
         hash (chain z ! k) = calculate_hash dg (chain z ! k) \<and>
         previous_hash (chain z ! k) = hash (chain z ! (k - 1)))"
    by (simp add: is_chain_valid_iff links_def)
next
  assume h: "run dg calls (ZenChain_init dg now) = Some z \<and> i < length (chain z) \<and>
    j < length (transactions (chain z ! i)) \<and>
    a \<noteq> amount (transactions (chain z ! i) ! j) \<and>
    inj_on dg {block_dict (chain z ! i), block_dict (set_amount j a (chain z ! i))}"
  then have r: "run dg calls (ZenChain_init dg now) = Some z" by simp
  have "sound dg z" using r init_sound by (rule run_sound)
  then show v: "is_chain_valid dg z" by (simp add: sound_def)
  have "transactions (chain z ! 0) = []" using r by (rule reachable_genesis_empty)
  with h have pos: "0 < i" by (cases "i = 0") auto
  with h show "2 \<le> length (chain z)" by simp
  from h pos v show "\<not> is_chain_valid dg (tamper_amount i j a z)"
    by (intro tamper_detected) simp_all
next
  assume "is_chain_valid dg z \<and> 0 < i \<and> i < length (chain z) \<and>
    j < length (transactions (chain z ! i)) \<and>
    a \<noteq> amount (transactions (chain z ! i) ! j) \<and>
    inj_on dg {block_dict (chain z ! i), block_dict (set_amount j a (chain z ! i))}"
  then show "\<not> is_chain_valid dg (tamper_amount i j a z)"
    by (intro tamper_detected) simp_all
next
  assume "is_chain_valid dg z \<and> 0 < i \<and> i < length (chain z)"
  then show "is_chain_valid dg (tamper_amount i j a z) \<longleftrightarrow>
       calculate_hash dg (set_amount j a (chain z ! i)) = hash (chain z ! i)"
    by (simp add: tamper_valid_iff)
next
  show "is_chain_valid dg (tamper_amount 0 j a z) = is_chain_valid dg z"
    by (rule tamper_genesis)
qed

theorem tamper_detection_witness:
  "run example_digest
     [Create_transaction example_tx, Mine_pending_transactions 2 3 ''miner'']
     (ZenChain_init example_digest 0) = Some example_ledger \<and>
   length (chain example_ledger) = 2 \<and>
   is_chain_valid example_digest example_ledger \<and>
   amount (transactions (chain example_ledger ! 1) ! 0) = PyInt 10 \<and>
   \<not> is_chain_valid example_digest (tamper_amount 1 0 (PyInt 11) example_ledger)"
  using tamper_detection[of example_digest example_ledger
      "[Create_transaction example_tx, Mine_pending_transactions 2 3 ''miner'']" 0
      1 0 "PyInt 11"]
    run_example example_ledger_valid
  by (simp add: example_ledger_def example_tx_eq set_amount_def block_dict_def to_dict_def
      example_digest_def opt_str_json_def nft_data_json_def number_json_def
      replicate_numeral_Cons)

section \<open>Rounding to a double\<close>

text \<open>
  \<open>ilog2\<close> is the binary exponent; \<open>round_double\<close> leaves every double as it is, and
  otherwise gives a value no further away than half a unit in the last place.
\<close>

lemma bit_length_nonneg: "0 \<le> bit_length n"
proof (induction n rule: bit_length.induct)
  case (1 n)
  show ?case
  proof (cases "n \<le> 0")
    case True
    then show ?thesis by (subst bit_length.simps) simp
  next
    case False
    with 1 have "0 \<le> bit_length (n div 2)" by simp
    with False show ?thesis by (subst bit_length.simps) simp
  qed
qed

lemma bit_length_bounds:
  "0 < n \<Longrightarrow> 2 ^ nat (bit_length n - 1) \<le> n \<and> n < 2 ^ nat (bit_length n)"
proof (induction n rule: bit_length.induct)
  case (1 n)
  have unfold: "bit_length n = 1 + bit_length (n div 2)"
    using "1.prems" by (subst bit_length.simps) simp
  show ?case
  proof (cases "n = 1")
    case True
    have "bit_length (0::int) = 0" by (subst bit_length.simps) simp
    with True unfold show ?thesis by simp
  next
    case False
    with "1.prems" have half: "0 < n div 2" by simp
    from "1.IH" "1.prems" half
    have IH: "2 ^ nat (bit_length (n div 2) - 1) \<le> n div 2" "n div 2 < 2 ^ nat (bit_length (n div 2))"
      by simp_all
    have pos: "0 < bit_length (n div 2)"
      using half bit_length_nonneg[of "n div 2 div 2"]
      by (subst bit_length.simps) simp
    then have e: "nat (bit_length (n div 2)) = Suc (nat (bit_length (n div 2) - 1))"
      by simp
    have "(2::int) ^ nat (bit_length n - 1) = 2 * 2 ^ nat (bit_length (n div 2) - 1)"
      using unfold e by simp
    also have "\<dots> \<le> 2 * (n div 2)" using IH(1) by simp
    also have "\<dots> \<le> n" by simp
    finally have lower: "2 ^ nat (bit_length n - 1) \<le> n" .
    have "n < 2 * (n div 2 + 1)" by simp
    also have "\<dots> \<le> 2 * 2 ^ nat (bit_length (n div 2))" using IH(2) by simp
    also have "\<dots> = 2 ^ nat (bit_length n)"
      using unfold pos by (simp add: nat_add_distrib)
    finally show ?thesis using lower by simp
  qed
qed

lemma pow2_nonneg: "0 \<le> e \<Longrightarrow> pow2 e = 2 ^ nat e"
  by (simp add: pow2_def)

lemma pow2_nonpos: "e \<le> 0 \<Longrightarrow> pow2 e = 1 / 2 ^ nat (- e)"
  by (cases "e = 0") (simp_all add: pow2_def)

lemma ilog2_bounds:
  assumes "x \<noteq> 0"
  shows "pow2 (ilog2 x) \<le> \<bar>x\<bar> \<and> \<bar>x\<bar> < pow2 (ilog2 x + 1)"
proof (cases "1 \<le> \<bar>x\<bar>")
  case True
  let ?n = "\<lfloor>\<bar>x\<bar>\<rfloor>"
  let ?b = "bit_length ?n"
  have n: "0 < ?n" using True by simp
  from bit_length_bounds[OF n]
  have lo: "2 ^ nat (?b - 1) \<le> ?n" and hi: "?n < 2 ^ nat ?b" by simp_all
  have b: "0 < ?b"
    using n bit_length_nonneg[of "?n div 2"] by (subst bit_length.simps) simp
  have i: "ilog2 x = ?b - 1" using True by (simp add: ilog2_def)
  have "(2::rat) ^ nat (?b - 1) = of_int (2 ^ nat (?b - 1))" by simp
  also have "\<dots> \<le> of_int ?n" using lo by (simp only: of_int_le_iff)
  also have "\<dots> \<le> \<bar>x\<bar>" by simp
  finally have 1: "pow2 (ilog2 x) \<le> \<bar>x\<bar>"
    using b by (simp add: i pow2_nonneg)
  have "?n + 1 \<le> 2 ^ nat ?b" using hi by simp
  then have "(of_int (?n + 1) :: rat) \<le> of_int (2 ^ nat ?b)" by (simp only: of_int_le_iff)
  moreover have "\<bar>x\<bar> < of_int (?n + 1)" by linarith
  ultimately have "\<bar>x\<bar> < 2 ^ nat ?b" by simp
  then have 2: "\<bar>x\<bar> < pow2 (ilog2 x + 1)"
    using b by (simp add: i pow2_nonneg)
  from 1 2 show ?thesis ..
next
  case False
  let ?y = "1 / \<bar>x\<bar>"
  let ?m = "\<lceil>?y\<rceil>"
  let ?k = "bit_length (?m - 1)"
  have x: "0 < \<bar>x\<bar>" "\<bar>x\<bar> < 1" using assms False by simp_all
  then have y: "1 < ?y" by simp
  then have m: "0 < ?m - 1" by linarith
  from bit_length_bounds[OF m]
  have lo: "2 ^ nat (?k - 1) \<le> ?m - 1" and hi: "?m - 1 < 2 ^ nat ?k" by simp_all
  have k: "0 < ?k"
    using m bit_length_nonneg[of "(?m - 1) div 2"] by (subst bit_length.simps) simp
  have i: "ilog2 x = - ?k" using False by (simp add: ilog2_def)
  have "?m \<le> 2 ^ nat ?k" using hi by simp
  then have "(of_int ?m :: rat) \<le> of_int (2 ^ nat ?k)" by (simp only: of_int_le_iff)
  then have "(of_int ?m :: rat) \<le> 2 ^ nat ?k" by (simp only: of_int_power of_int_numeral)
  moreover have "?y \<le> of_int ?m" by (rule le_of_int_ceiling)
  ultimately have "?y \<le> 2 ^ nat ?k" by (rule order_trans[rotated])
  then have "1 / 2 ^ nat ?k \<le> \<bar>x\<bar>"
    using x(1) by (simp add: field_simps)
  then have 1: "pow2 (ilog2 x) \<le> \<bar>x\<bar>"
    using k by (simp add: i pow2_nonpos)
  have "(of_int (2 ^ nat (?k - 1)) :: rat) \<le> of_int (?m - 1)"
    using lo by (simp only: of_int_le_iff)
  moreover have "of_int (?m - 1) < ?y" by linarith
  ultimately have "2 ^ nat (?k - 1) < ?y" by simp
  then have "\<bar>x\<bar> < 1 / 2 ^ nat (?k - 1)"
    using x(1) by (simp add: field_simps)
  moreover have "pow2 (ilog2 x + 1) = 1 / 2 ^ nat (?k - 1)"
    using k by (simp add: i pow2_nonpos)
  ultimately have 2: "\<bar>x\<bar> < pow2 (ilog2 x + 1)" by simp
  from 1 2 show ?thesis ..
qed

lemma pow2_pos: "0 < pow2 e"
  by (simp add: pow2_def)

lemma round_half_even_of_int: "round_half_even (of_int q) = q"
  by (simp add: round_half_even_def)

lemma round_half_even_near: "\<bar>of_int (round_half_even t) - t\<bar> \<le> 1 / 2"
proof -
  let ?f = "\<lfloor>t\<rfloor>"
  have b: "of_int ?f \<le> t" "t < of_int ?f + 1" by linarith+
  consider "t - of_int ?f < 1 / 2" | "1 / 2 < t - of_int ?f" | "t - of_int ?f = 1 / 2"
    by linarith
  then show ?thesis
  proof cases
    case 1
    then have "round_half_even t = ?f" by (simp add: round_half_even_def Let_def)
    with 1 b show ?thesis by simp
  next
    case 2
    then have "round_half_even t = ?f + 1" by (simp add: round_half_even_def Let_def)
    with 2 b show ?thesis by simp
  next
    case 3
    then have "round_half_even t = ?f \<or> round_half_even t = ?f + 1"
      by (simp add: round_half_even_def Let_def)
    with 3 show ?thesis by auto
  qed
qed

lemma round_double_is_double:
  assumes "is_double x"
  shows "round_double x = Finite x"
proof (cases "x = 0")
  case True
  then show ?thesis by (simp add: round_double_def)
next
  case False
  let ?e = "max (ilog2 x - 52) (- 1074)"
  let ?t = "x / pow2 ?e"
  from assms False have q: "of_int \<lfloor>?t\<rfloor> = ?t" and r: "ilog2 x < 1024"
    by (auto simp: is_double_def Let_def)
  have p: "pow2 ?e \<noteq> 0" using pow2_pos[of ?e] by simp
  have "round_half_even ?t = \<lfloor>?t\<rfloor>"
    using round_half_even_of_int[of "\<lfloor>?t\<rfloor>"] by (simp only: q)
  then have eq: "of_int (round_half_even ?t) * pow2 ?e = x"
    using p by (simp add: q)
  show ?thesis
    unfolding round_double_def Let_def eq using False r by simp
qed

lemma round_double_near:
  assumes "round_double x = Finite y"
  shows "\<bar>y - x\<bar> \<le> pow2 (max (ilog2 x - 52) (- 1074)) / 2"
proof (cases "x = 0")
  case True
  with assms show ?thesis using pow2_pos[of "max (ilog2 x - 52) (- 1074)"]
    by (simp add: round_double_def)
next
  case False
  let ?e = "max (ilog2 x - 52) (- 1074)"
  let ?q = "round_half_even (x / pow2 ?e)"
  have y: "y = of_int ?q * pow2 ?e"
    using assms False by (auto simp: round_double_def Let_def split: if_splits)
  have p: "0 < pow2 ?e" by (rule pow2_pos)
  have "\<bar>of_int ?q - x / pow2 ?e\<bar> \<le> 1 / 2" by (rule round_half_even_near)
  then have "\<bar>of_int ?q - x / pow2 ?e\<bar> * pow2 ?e \<le> 1 / 2 * pow2 ?e"
    using p by (simp only: mult_le_cancel_right_pos)
  moreover have "\<bar>of_int ?q - x / pow2 ?e\<bar> * pow2 ?e = \<bar>of_int ?q * pow2 ?e - x\<bar>"
  proof -
    have "\<bar>of_int ?q - x / pow2 ?e\<bar> * pow2 ?e = \<bar>(of_int ?q - x / pow2 ?e) * pow2 ?e\<bar>"
      using p by (simp add: abs_mult)
    also have "(of_int ?q - x / pow2 ?e) * pow2 ?e = of_int ?q * pow2 ?e - x"
      using p by (simp add: field_simps)
    finally show ?thesis .
  qed
  ultimately show ?thesis by (simp add: y)
qed


section \<open>Balances\<close>

subsection \<open>The two loops are one scan\<close>




subsection \<open>Integer amounts\<close>








subsection \<open>Float amounts\<close>

text \<open>The float operations that the balances of \<open>float_ledger\<close> need.\<close>

lemma round_double_0: "round_double 0 = Finite 0"
  by (simp add: round_double_def)

lemma round_double_1: "round_double 1 = Finite 1"
  by code_simp

lemma round_double_minus_1: "round_double (- 1) = Finite (- 1)"
  by code_simp

lemma round_double_1e16: "round_double 10000000000000000 = Finite 10000000000000000"
  by code_simp

lemma round_double_tie: "round_double (- 9999999999999999) = Finite (- 10000000000000000)"
  by code_simp

lemmas float_ops =
  float_of_int_def float_sub_def round_double_0 round_double_1 round_double_minus_1
  round_double_1e16 round_double_tie

text \<open>
  In Python: \<^verbatim>\<open>0 + 1.0\<close> is \<^verbatim>\<open>1.0\<close>, \<^verbatim>\<open>1.0 - 1e16\<close> is \<^verbatim>\<open>-1e16\<close>, and
  \<^verbatim>\<open>-1e16 + 1e16\<close> is \<^verbatim>\<open>0.0\<close>.
\<close>

lemma float_steps:
  "py_add (PyInt 0) (PyFloat (Finite 1)) = Inr (PyFloat (Finite 1))"
  "py_sub (PyFloat (Finite 1)) (PyFloat (Finite 10000000000000000)) =
     Inr (PyFloat (Finite (- 10000000000000000)))"
  "py_add (PyFloat (Finite (- 10000000000000000))) (PyFloat (Finite 10000000000000000)) =
     Inr (PyFloat (Finite 0))"
  "py_sub (PyInt 0) (PyFloat (Finite 1)) = Inr (PyFloat (Finite (- 1)))"
  by (simp_all add: float_ops)











section \<open>The asset registry\<close>

text \<open>
  C6. For every ledger, \<^verbatim>\<open>create_nft(owner, id, name, description)\<close> returns
  \<^verbatim>\<open>False\<close> and leaves the ledger as it is when \<open>id\<close> is in the registry. Otherwise
  it returns \<^verbatim>\<open>True\<close>, the registry maps \<open>id\<close> to the owner, the name, the
  description and the creation time, and the pending pool has one more transaction at
  its end, with no sender, the owner as recipient, amount \<open>0\<close> and a payload that
  records the action \<^verbatim>\<open>create\<close>, the asset id, the name and the description;
  nothing else of the ledger changes.
\<close>

theorem create_nft_effect:
  "(nft_id \<in> dom (nft_collections z) \<longrightarrow>
      create_nft dg t_created t_tx a nft_id nm ds z = (False, z)) \<and>
   (nft_id \<notin> dom (nft_collections z) \<longrightarrow>
      create_nft dg t_created t_tx a nft_id nm ds z =
        (True, z\<lparr>nft_collections := (nft_collections z)(nft_id \<mapsto>
                     \<lparr>owner = a, name = nm, description = ds, created_at = t_created\<rparr>),
                  pending_transactions := pending_transactions z @
                    [Transaction_init dg t_tx None a (PyInt 0)
                       (Some [(''action'', ''create''), (''nft_id'', nft_id),
                              (''name'', nm), (''description'', ds)])]\<rparr>)) \<and>
   sender (Transaction_init dg t_tx None a (PyInt 0)
             (Some [(''action'', ''create''), (''nft_id'', nft_id),
                    (''name'', nm), (''description'', ds)])) = None \<and>
   recipient (Transaction_init dg t_tx None a (PyInt 0)
             (Some [(''action'', ''create''), (''nft_id'', nft_id),
                    (''name'', nm), (''description'', ds)])) = a \<and>
   amount (Transaction_init dg t_tx None a (PyInt 0)
             (Some [(''action'', ''create''), (''nft_id'', nft_id),
                    (''name'', nm), (''description'', ds)])) = PyInt 0 \<and>
   nft_data (Transaction_init dg t_tx None a (PyInt 0)
             (Some [(''action'', ''create''), (''nft_id'', nft_id),
                    (''name'', nm), (''description'', ds)])) =
     Some [(''action'', ''create''), (''nft_id'', nft_id), (''name'', nm), (''description'', ds)]"
  by (simp add: create_nft_def create_transaction_def Let_def Transaction_init_fields)

lemma nft_ledger_eq:
  "nft_ledger =
     (ZenChain_init example_digest 0)
       \<lparr>nft_collections := [''X'' \<mapsto> \<lparr>owner = ''alice'', name = ''art'',
                                     description = ''a picture'', created_at = 1\<rparr>],
        pending_transactions :=
          [Transaction_init example_digest 2 None ''alice'' (PyInt 0)
             (Some [(''action'', ''create''), (''nft_id'', ''X''), (''name'', ''art''),
                    (''description'', ''a picture'')])]\<rparr>"
  by (simp add: nft_ledger_def create_nft_def create_transaction_def Let_def ZenChain_init_def)

theorem create_nft_effect_witness:
  "fst (create_nft example_digest 1 2 ''alice'' ''X'' ''art'' ''a picture''
          (ZenChain_init example_digest 0)) = True \<and>
   nft_collections nft_ledger ''X'' =
     Some \<lparr>owner = ''alice'', name = ''art'', description = ''a picture'', created_at = 1\<rparr> \<and>
   length (pending_transactions nft_ledger) = 1 \<and>
   create_nft example_digest 5 6 ''bob'' ''X'' ''copy'' ''a copy'' nft_ledger =
     (False, nft_ledger)"
  using create_nft_effect[of "''X''" "ZenChain_init example_digest 0" example_digest 1 2
      "''alice''" "''art''" "''a picture''"]
    create_nft_effect[of "''X''" nft_ledger example_digest 5 6 "''bob''" "''copy''" "''a copy''"]
  by (simp add: nft_ledger_eq) (simp add: ZenChain_init_def)

text \<open>
  C7, as the code has it. For every ledger, \<^verbatim>\<open>transfer_nft(sender, recipient, id)\<close>
  returns \<^verbatim>\<open>False\<close> and leaves the ledger as it is when \<open>id\<close> is not in the registry
  or the owner the registry has for \<open>id\<close> is not the sender. Otherwise it returns
  \<^verbatim>\<open>True\<close>, the owner of the registry entry becomes the recipient, the rest of the
  entry staying, and the pending pool has one more transaction at its end: its sender
  and recipient fields are the sender and the recipient, its amount is \<open>0\<close>, and its
  payload records the action \<^verbatim>\<open>transfer\<close> and the asset id, and nothing else.
\<close>

theorem transfer_nft_effect:
  "((nft_collections z nft_id = None \<or>
     (\<exists>e. nft_collections z nft_id = Some e \<and> owner e \<noteq> s)) \<longrightarrow>
      transfer_nft dg t_tx s r nft_id z = (False, z)) \<and>
   (\<forall>e. nft_collections z nft_id = Some e \<and> owner e = s \<longrightarrow>
      transfer_nft dg t_tx s r nft_id z =
        (True, z\<lparr>nft_collections := (nft_collections z)(nft_id \<mapsto> e\<lparr>owner := r\<rparr>),
                  pending_transactions := pending_transactions z @
                    [Transaction_init dg t_tx (Some s) r (PyInt 0)
                       (Some [(''action'', ''transfer''), (''nft_id'', nft_id)])]\<rparr>)) \<and>
   sender (Transaction_init dg t_tx (Some s) r (PyInt 0)
            (Some [(''action'', ''transfer''), (''nft_id'', nft_id)])) = Some s \<and>
   recipient (Transaction_init dg t_tx (Some s) r (PyInt 0)
            (Some [(''action'', ''transfer''), (''nft_id'', nft_id)])) = r \<and>
   amount (Transaction_init dg t_tx (Some s) r (PyInt 0)
            (Some [(''action'', ''transfer''), (''nft_id'', nft_id)])) = PyInt 0 \<and>
   nft_data (Transaction_init dg t_tx (Some s) r (PyInt 0)
            (Some [(''action'', ''transfer''), (''nft_id'', nft_id)])) =
     Some [(''action'', ''transfer''), (''nft_id'', nft_id)]"
  by (auto simp add: transfer_nft_def create_transaction_def Let_def Transaction_init_fields)

theorem transfer_nft_effect_witness:
  "transfer_nft example_digest 3 ''bob'' ''carol'' ''X'' nft_ledger = (False, nft_ledger) \<and>
   transfer_nft example_digest 3 ''alice'' ''bob'' ''Y'' nft_ledger = (False, nft_ledger) \<and>
   fst (transfer_nft example_digest 3 ''alice'' ''bob'' ''X'' nft_ledger) = True \<and>
   nft_collections (snd (transfer_nft example_digest 3 ''alice'' ''bob'' ''X'' nft_ledger)) ''X'' =
     Some \<lparr>owner = ''bob'', name = ''art'', description = ''a picture'', created_at = 1\<rparr> \<and>
   length (pending_transactions
      (snd (transfer_nft example_digest 3 ''alice'' ''bob'' ''X'' nft_ledger))) = 2"
  using transfer_nft_effect[of nft_ledger "''X''" "''bob''" example_digest 3 "''carol''"]
    transfer_nft_effect[of nft_ledger "''Y''" "''alice''" example_digest 3 "''bob''"]
    transfer_nft_effect[of nft_ledger "''X''" "''alice''" example_digest 3 "''bob''"]
  by (simp add: nft_ledger_eq)

text \<open>
  The claim C7 as it is written has the payload of the transfer transaction record the
  sender and the recipient. It does not: after \<^verbatim>\<open>alice\<close> has transferred the asset
  \<^verbatim>\<open>X\<close> to \<^verbatim>\<open>bob\<close>, the payload of the appended transaction holds the action and
  the asset id, and neither address is among its values.
\<close>

theorem transfer_payload_without_addresses:
  "fst (transfer_nft example_digest 3 ''alice'' ''bob'' ''X'' nft_ledger) = True \<and>
   nft_data (last (pending_transactions
      (snd (transfer_nft example_digest 3 ''alice'' ''bob'' ''X'' nft_ledger)))) =
     Some [(''action'', ''transfer''), (''nft_id'', ''X'')] \<and>
   ''alice'' \<notin> snd ` set [(''action'', ''transfer''), (''nft_id'', ''X'')] \<and>
   ''bob'' \<notin> snd ` set [(''action'', ''transfer''), (''nft_id'', ''X'')]"
  by (simp add: nft_ledger_eq transfer_nft_def create_transaction_def Let_def
      Transaction_init_fields)

end
